theory Spec2Isabelle
  imports Main "HOL-Library.Sublist" "HOL-Library.Multiset"
begin

section \<open>router-fusion: discovery and mounting of Express routers\<close>

text \<open>
  The repository holds four variants of the same pipeline:
  \<^item> \<open>v1\<close>: the first file of \<^verbatim>\<open>src/index.js\<close> (no \<^verbatim>\<open>helpRoute\<close>, no inner \<^verbatim>\<open>try\<close>);
  \<^item> \<open>v2\<close>: the second file of \<^verbatim>\<open>src/index.js\<close> (key loop over the module, \<^verbatim>\<open>helpRoute\<close>);
  \<^item> \<open>mjs\<close>: \<^verbatim>\<open>src/index.mjs\<close> (dynamic \<^verbatim>\<open>import\<close>, per-entry \<^verbatim>\<open>try\<close> in the scanner);
  \<^item> \<open>p0\<close>: \<^verbatim>\<open>src/unnamed/part_000\<close> (\<^verbatim>\<open>handleExpressRouter\<close>).
  Functions that are textually identical in several variants are modelled once.
\<close>

subsection \<open>Strings\<close>

text \<open>\<^verbatim>\<open>String.prototype.endsWith\<close> and \<^verbatim>\<open>String.prototype.includes\<close>.\<close>

definition endsWith :: "string \<Rightarrow> string \<Rightarrow> bool" where
  "endsWith s suf =
     (length suf \<le> length s \<and> drop (length s - length suf) s = suf)"

fun includes_str :: "string \<Rightarrow> string \<Rightarrow> bool" where
  "includes_str [] sub = (sub = [])"
| "includes_str (c # cs) sub =
     (take (length sub) (c # cs) = sub \<or> includes_str cs sub)"

text \<open>\<^verbatim>\<open>str.split(" ")\<close>: the pieces between single spaces; the empty string gives one
  empty piece, and two spaces in a row give an empty piece between them.\<close>

fun split_on :: "char \<Rightarrow> string \<Rightarrow> string list" where
  "split_on sep [] = [[]]"
| "split_on sep (c # cs) =
     (if c = sep then [] # split_on sep cs
      else (case split_on sep cs of
              [] \<Rightarrow> [[c]]
            | t # ts \<Rightarrow> (c # t) # ts))"

subsection \<open>The exclusion filter\<close>

record excluded =
  files :: "string list"
  folders :: "string list"

definition DEFAULT_EXCLUDE_FOLDERS :: "string list" where
  "DEFAULT_EXCLUDE_FOLDERS = [''node_modules'', ''.git'']"

text \<open>\<^verbatim>\<open>filterFileAndFolder\<close>, the same in all four variants. \<^verbatim>\<open>files.includes(elem)\<close> on an
  array is membership.\<close>

definition filterFileAndFolder :: "string \<Rightarrow> excluded" where
  "filterFileAndFolder str =
     (let arr = split_on CHR '' '' str;
          fs = filter (\<lambda>elem. includes_str elem ''.js'' \<or> includes_str elem ''.ts'') arr;
          ds = filter (\<lambda>elem. elem \<notin> set fs) arr
      in \<lparr>files = fs, folders = ds\<rparr>)"

subsection \<open>The file system seen by the scanner\<close>

text \<open>
  A path is the list of its components; \<^verbatim>\<open>path.join(directoryPath, file)\<close> appends the
  entry name. A node is what \<^verbatim>\<open>fs.stat\<close> and \<^verbatim>\<open>fs.readdir\<close> find at a path:
  \<^item> \<open>File\<close>: \<^verbatim>\<open>stat\<close> succeeds, not a directory, \<^verbatim>\<open>readdir\<close> throws (ENOTDIR);
  \<^item> \<open>Dir es\<close>: a directory whose \<^verbatim>\<open>readdir\<close> lists the entries \<open>es\<close> in this order;
  \<^item> \<open>Unlistable\<close>: \<^verbatim>\<open>stat\<close> reports a directory, \<^verbatim>\<open>readdir\<close> throws (EACCES);
  \<^item> \<open>Missing\<close>: both \<^verbatim>\<open>stat\<close> and \<^verbatim>\<open>readdir\<close> throw (ENOENT, a dangling link).
\<close>

type_synonym path = "string list"

datatype node = File | Dir "(string \<times> node) list" | Unlistable | Missing

datatype error = ReaddirError path | StatError path | LoadError path | UseError

fun isDirectory :: "node \<Rightarrow> bool" where
  "isDirectory (Dir es) = True"
| "isDirectory Unlistable = True"
| "isDirectory File = False"
| "isDirectory Missing = False"

definition isJsTs :: "string \<Rightarrow> bool" where
  "isJsTs file = (endsWith file ''.js'' \<or> endsWith file ''.ts'')"

text \<open>\<^verbatim>\<open>getAllJsTsFiles\<close> of \<open>v1\<close>, \<open>v2\<close> and \<open>p0\<close>: every exception leaves through the
  function's \<^verbatim>\<open>catch\<close>, which logs and rethrows. \<open>scanEntries\<close> is the \<^verbatim>\<open>for\<close> loop,
  \<open>jsTsFiles\<close> its accumulator.\<close>

fun getAllJsTsFiles :: "path \<Rightarrow> node \<Rightarrow> string list \<Rightarrow> string list \<Rightarrow> error + path list"
  and scanEntries :: "path \<Rightarrow> (string \<times> node) list \<Rightarrow> string list \<Rightarrow> string list
        \<Rightarrow> path list \<Rightarrow> error + path list" where
  "getAllJsTsFiles directoryPath (Dir es) excludeFolders excludeFiles =
     scanEntries directoryPath es excludeFolders excludeFiles []"
| "getAllJsTsFiles directoryPath File excludeFolders excludeFiles =
     Inl (ReaddirError directoryPath)"
| "getAllJsTsFiles directoryPath Unlistable excludeFolders excludeFiles =
     Inl (ReaddirError directoryPath)"
| "getAllJsTsFiles directoryPath Missing excludeFolders excludeFiles =
     Inl (ReaddirError directoryPath)"
| "scanEntries directoryPath [] excludeFolders excludeFiles jsTsFiles = Inr jsTsFiles"
| "scanEntries directoryPath ((file, n) # rest) excludeFolders excludeFiles jsTsFiles =
     (if n = Missing then Inl (StatError (directoryPath @ [file]))
      else if isDirectory n \<and> file \<notin> set excludeFolders then
        (case getAllJsTsFiles (directoryPath @ [file]) n excludeFolders excludeFiles of
           Inl e \<Rightarrow> Inl e
         | Inr subdirectoryJsTsFiles \<Rightarrow>
             scanEntries directoryPath rest excludeFolders excludeFiles
               (jsTsFiles @ subdirectoryJsTsFiles))
      else if isJsTs file \<and> file \<notin> set excludeFiles then
        scanEntries directoryPath rest excludeFolders excludeFiles
          (jsTsFiles @ [directoryPath @ [file]])
      else scanEntries directoryPath rest excludeFolders excludeFiles jsTsFiles)"

text \<open>\<^verbatim>\<open>getAllJsTsFiles\<close> of \<open>mjs\<close>: the body of the loop sits in a \<^verbatim>\<open>try\<close> of its own, so
  a failing \<^verbatim>\<open>stat\<close> and a failing recursive call are logged and the entry is skipped.\<close>

fun getAllJsTsFiles_mjs :: "path \<Rightarrow> node \<Rightarrow> string list \<Rightarrow> string list \<Rightarrow> error + path list"
  and scanEntries_mjs :: "path \<Rightarrow> (string \<times> node) list \<Rightarrow> string list \<Rightarrow> string list
        \<Rightarrow> path list \<Rightarrow> path list" where
  "getAllJsTsFiles_mjs directoryPath (Dir es) excludeFolders excludeFiles =
     Inr (scanEntries_mjs directoryPath es excludeFolders excludeFiles [])"
| "getAllJsTsFiles_mjs directoryPath File excludeFolders excludeFiles =
     Inl (ReaddirError directoryPath)"
| "getAllJsTsFiles_mjs directoryPath Unlistable excludeFolders excludeFiles =
     Inl (ReaddirError directoryPath)"
| "getAllJsTsFiles_mjs directoryPath Missing excludeFolders excludeFiles =
     Inl (ReaddirError directoryPath)"
| "scanEntries_mjs directoryPath [] excludeFolders excludeFiles jsTsFiles = jsTsFiles"
| "scanEntries_mjs directoryPath ((file, n) # rest) excludeFolders excludeFiles jsTsFiles =
     (if n = Missing then
        scanEntries_mjs directoryPath rest excludeFolders excludeFiles jsTsFiles
      else if isDirectory n \<and> file \<notin> set excludeFolders then
        (case getAllJsTsFiles_mjs (directoryPath @ [file]) n excludeFolders excludeFiles of
           Inl e \<Rightarrow> scanEntries_mjs directoryPath rest excludeFolders excludeFiles jsTsFiles
         | Inr subdirectoryJsTsFiles \<Rightarrow>
             scanEntries_mjs directoryPath rest excludeFolders excludeFiles
               (jsTsFiles @ subdirectoryJsTsFiles))
      else if isJsTs file \<and> file \<notin> set excludeFiles then
        scanEntries_mjs directoryPath rest excludeFolders excludeFiles
          (jsTsFiles @ [directoryPath @ [file]])
      else scanEntries_mjs directoryPath rest excludeFolders excludeFiles jsTsFiles)"

subsection \<open>JavaScript values\<close>

text \<open>
  A loaded module is any JavaScript value. An object or a function carries its own
  enumerable properties and the enumerable properties it inherits, each list in the
  order \<^verbatim>\<open>for ... in\<close> visits them (own keys first; a key is listed once, an inherited key
  shadowed by an own one is left out). Numbers are integers here: the pipeline only tests
  a number for truthiness.
\<close>

datatype jsval =
    JUndefined
  | JNull
  | JBool bool
  | JNum int
  | JStr string
  | JObject "(string \<times> jsval) list" "(string \<times> jsval) list"
  | JFunction "(string \<times> jsval) list" "(string \<times> jsval) list"

fun ownProps :: "jsval \<Rightarrow> (string \<times> jsval) list" where
  "ownProps (JObject own inh) = own"
| "ownProps (JFunction own inh) = own"
| "ownProps v = []"

fun inheritedProps :: "jsval \<Rightarrow> (string \<times> jsval) list" where
  "inheritedProps (JObject own inh) = inh"
| "inheritedProps (JFunction own inh) = inh"
| "inheritedProps v = []"

fun typeof :: "jsval \<Rightarrow> string" where
  "typeof JUndefined = ''undefined''"
| "typeof JNull = ''object''"
| "typeof (JBool b) = ''boolean''"
| "typeof (JNum n) = ''number''"
| "typeof (JStr s) = ''string''"
| "typeof (JObject own inh) = ''object''"
| "typeof (JFunction own inh) = ''function''"

text \<open>The truthiness test of \<^verbatim>\<open>if (routerModule)\<close> and \<^verbatim>\<open>routerModule && ...\<close>.\<close>

fun truthy :: "jsval \<Rightarrow> bool" where
  "truthy JUndefined = False"
| "truthy JNull = False"
| "truthy (JBool b) = b"
| "truthy (JNum n) = (n \<noteq> 0)"
| "truthy (JStr s) = (s \<noteq> [])"
| "truthy (JObject own inh) = True"
| "truthy (JFunction own inh) = True"

definition hasOwnProperty :: "jsval \<Rightarrow> string \<Rightarrow> bool" where
  "hasOwnProperty v key = (map_of (ownProps v) key \<noteq> None)"

text \<open>\<^verbatim>\<open>v?.key\<close> for a key that is not built in (the pipeline reads \<^verbatim>\<open>default\<close>): the own
  property, else the inherited one, else \<^verbatim>\<open>undefined\<close>; \<^verbatim>\<open>undefined\<close> too on
  \<^verbatim>\<open>null\<close>, \<^verbatim>\<open>undefined\<close> and the primitives.\<close>

definition getProp :: "jsval \<Rightarrow> string \<Rightarrow> jsval" where
  "getProp v key =
     (case map_of (ownProps v @ inheritedProps v) key of
        None \<Rightarrow> JUndefined
      | Some x \<Rightarrow> x)"

text \<open>The values \<^verbatim>\<open>routerModule[key]\<close> that \<^verbatim>\<open>for (const key in routerModule)\<close> visits, in
  order. A string is visited index by index, each element a one-character string;
  \<^verbatim>\<open>null\<close>, \<^verbatim>\<open>undefined\<close>, numbers and booleans have no enumerable keys.\<close>

fun forInElements :: "jsval \<Rightarrow> jsval list" where
  "forInElements (JObject own inh) = map snd (own @ inh)"
| "forInElements (JFunction own inh) = map snd (own @ inh)"
| "forInElements (JStr s) = map (\<lambda>c. JStr [c]) s"
| "forInElements v = []"

subsection \<open>The application and the host\<close>

text \<open>
  The application is an object in a store; \<open>stack\<close> is the list of layers that
  \<^verbatim>\<open>app.use\<close> has pushed, each with its mount path (\<open>None\<close> for the one-argument
  \<^verbatim>\<open>app.use(router)\<close>) and its handler. The handler of the help route is a closure over
  the variable \<^verbatim>\<open>app\<close>: it holds the address of the application, not a copy of it.
\<close>

type_synonym addr = nat

datatype handler = Router jsval | HelpHandler addr

datatype layer = Layer "string option" handler

record app =
  stack :: "layer list"

type_synonym store = "addr \<Rightarrow> app"

text \<open>
  What the pipeline calls but does not define: \<^verbatim>\<open>isExpressRouter\<close> of the package
  express-routes-extractor, whether \<^verbatim>\<open>app.use(v)\<close> throws, and the two module loaders
  (\<open>Inl\<close> when loading the file throws).
\<close>

record host =
  isExpressRouter :: "jsval \<Rightarrow> bool"
  useThrows :: "jsval \<Rightarrow> bool"
  require :: "path \<Rightarrow> error + jsval"
  dynamicImport :: "path \<Rightarrow> error + jsval"

record options =
  excludeFilter :: string
  projectPath :: path
  helpRoute :: bool

text \<open>\<^verbatim>\<open>app.use(v)\<close>, and the same call inside \<^verbatim>\<open>try { ... } catch (error) { console.error(error) }\<close>.\<close>

definition appUse :: "host \<Rightarrow> app \<Rightarrow> jsval \<Rightarrow> error + app" where
  "appUse h a v =
     (if useThrows h v then Inl UseError
      else Inr (a\<lparr>stack := stack a @ [Layer None (Router v)]\<rparr>))"

definition tryUse :: "host \<Rightarrow> app \<Rightarrow> jsval \<Rightarrow> app" where
  "tryUse h a v = (case appUse h a v of Inl e \<Rightarrow> a | Inr a' \<Rightarrow> a')"

text \<open>\<^verbatim>\<open>if (helpRoute) { app.use("/help", function (req, res) { ... }) }\<close>; \<open>ref\<close> is the
  address the closure captures.\<close>

definition addHelpRoute :: "options \<Rightarrow> addr \<Rightarrow> app \<Rightarrow> app" where
  "addHelpRoute opts ref a =
     (if helpRoute opts
      then a\<lparr>stack := stack a @ [Layer (Some ''/help'') (HelpHandler ref)]\<rparr>
      else a)"

text \<open>The first statements of \<^verbatim>\<open>fuseRoutes\<close>, the same in \<open>v1\<close>, \<open>v2\<close> and \<open>p0\<close>: split the
  filter, put the default folders in front, scan. \<open>tree\<close> is what the file system holds at
  the starting path.\<close>

definition scanProject :: "options \<Rightarrow> node \<Rightarrow> error + path list" where
  "scanProject opts tree =
     (let ex = filterFileAndFolder (excludeFilter opts);
          allExcludedFolders = DEFAULT_EXCLUDE_FOLDERS @ folders ex
      in getAllJsTsFiles (projectPath opts) tree allExcludedFolders (files ex))"

definition scanProject_mjs :: "options \<Rightarrow> node \<Rightarrow> error + path list" where
  "scanProject_mjs opts tree =
     (let ex = filterFileAndFolder (excludeFilter opts);
          allExcludedFolders = DEFAULT_EXCLUDE_FOLDERS @ folders ex
      in getAllJsTsFiles_mjs (projectPath opts) tree allExcludedFolders (files ex))"

subsection \<open>Variant v1: the first file of index.js\<close>

text \<open>The loop has no \<^verbatim>\<open>try\<close> of its own: a throwing \<^verbatim>\<open>require\<close> or \<^verbatim>\<open>app.use\<close> reaches
  the outer \<^verbatim>\<open>catch\<close>, which logs and rethrows. The result is the application as the run
  left it, and the error thrown to the caller, if any.\<close>

fun mountAll_v1 :: "host \<Rightarrow> app \<Rightarrow> path list \<Rightarrow> app \<times> error option" where
  "mountAll_v1 h a [] = (a, None)"
| "mountAll_v1 h a (file # rest) =
     (case require h file of
        Inl e \<Rightarrow> (a, Some e)
      | Inr routerModule \<Rightarrow>
          if isExpressRouter h routerModule then
            (case appUse h a routerModule of
               Inl e \<Rightarrow> (a, Some e)
             | Inr a' \<Rightarrow> mountAll_v1 h a' rest)
          else mountAll_v1 h a rest)"

definition fuseRoutes_v1 :: "host \<Rightarrow> options \<Rightarrow> node \<Rightarrow> app \<Rightarrow> app \<times> error option" where
  "fuseRoutes_v1 h opts tree a =
     (case scanProject opts tree of
        Inl e \<Rightarrow> (a, Some e)
      | Inr fs \<Rightarrow> mountAll_v1 h a fs)"

subsection \<open>Variant v2: the second file of index.js\<close>

text \<open>The body of \<^verbatim>\<open>for (const key in routerModule)\<close> for one element.\<close>

definition mountElement_v2 :: "host \<Rightarrow> app \<Rightarrow> jsval \<Rightarrow> app" where
  "mountElement_v2 h a element =
     (if isExpressRouter h element then tryUse h a element
      else if isExpressRouter h (getProp element ''default'')
        then tryUse h a (getProp element ''default'')
      else a)"

fun forKeys_v2 :: "host \<Rightarrow> app \<Rightarrow> jsval list \<Rightarrow> app" where
  "forKeys_v2 h a [] = a"
| "forKeys_v2 h a (element # rest) = forKeys_v2 h (mountElement_v2 h a element) rest"

text \<open>One round of the loop over the files: when \<^verbatim>\<open>require\<close> throws, \<^verbatim>\<open>routerModule\<close>
  stays \<^verbatim>\<open>undefined\<close>.\<close>

definition fuseFile_v2 :: "host \<Rightarrow> app \<Rightarrow> path \<Rightarrow> app" where
  "fuseFile_v2 h a file =
     (case require h file of
        Inl e \<Rightarrow> a
      | Inr routerModule \<Rightarrow>
          (let a1 = forKeys_v2 h a (forInElements routerModule)
           in if truthy routerModule \<and> isExpressRouter h routerModule
              then tryUse h a1 routerModule else a1))"

fun mountAll_v2 :: "host \<Rightarrow> app \<Rightarrow> path list \<Rightarrow> app" where
  "mountAll_v2 h a [] = a"
| "mountAll_v2 h a (file # rest) = mountAll_v2 h (fuseFile_v2 h a file) rest"

definition fuseRoutes_v2 ::
  "host \<Rightarrow> options \<Rightarrow> node \<Rightarrow> addr \<Rightarrow> app \<Rightarrow> app \<times> error option" where
  "fuseRoutes_v2 h opts tree ref a =
     (case scanProject opts tree of
        Inl e \<Rightarrow> (a, Some e)
      | Inr fs \<Rightarrow> (addHelpRoute opts ref (mountAll_v2 h a fs), None))"

subsection \<open>Variant mjs: index.mjs\<close>

definition fuseFile_mjs :: "host \<Rightarrow> app \<Rightarrow> path \<Rightarrow> app" where
  "fuseFile_mjs h a file =
     (let routerModule = (case dynamicImport h file of Inl e \<Rightarrow> JUndefined | Inr m \<Rightarrow> m);
          defaultModule = getProp routerModule ''default''
      in if truthy routerModule \<and> isExpressRouter h defaultModule
           then tryUse h a defaultModule
         else if isExpressRouter h routerModule then tryUse h a routerModule
         else a)"

fun mountAll_mjs :: "host \<Rightarrow> app \<Rightarrow> path list \<Rightarrow> app" where
  "mountAll_mjs h a [] = a"
| "mountAll_mjs h a (file # rest) = mountAll_mjs h (fuseFile_mjs h a file) rest"

definition fuseRoutes_mjs ::
  "host \<Rightarrow> options \<Rightarrow> node \<Rightarrow> addr \<Rightarrow> app \<Rightarrow> app \<times> error option" where
  "fuseRoutes_mjs h opts tree ref a =
     (case scanProject_mjs opts tree of
        Inl e \<Rightarrow> (a, Some e)
      | Inr fs \<Rightarrow> (addHelpRoute opts ref (mountAll_mjs h a fs), None))"

subsection \<open>Variant p0: unnamed/part_000\<close>

definition mountElement_p0 :: "host \<Rightarrow> app \<Rightarrow> jsval \<Rightarrow> app" where
  "mountElement_p0 h a element =
     (if typeof element = ''function'' \<and> hasOwnProperty element ''stack'' then
        (if isExpressRouter h element then tryUse h a element else a)
      else a)"

fun forKeys_p0 :: "host \<Rightarrow> app \<Rightarrow> jsval list \<Rightarrow> app" where
  "forKeys_p0 h a [] = a"
| "forKeys_p0 h a (element # rest) = forKeys_p0 h (mountElement_p0 h a element) rest"

text \<open>\<^verbatim>\<open>handleExpressRouter\<close>: the \<^verbatim>\<open>app.use\<close> of the second branch is not in a \<^verbatim>\<open>try\<close>.\<close>

definition handleExpressRouter :: "host \<Rightarrow> app \<Rightarrow> jsval \<Rightarrow> error + app" where
  "handleExpressRouter h a routerModule =
     (let haveAnyRoutes = isExpressRouter h routerModule
      in if haveAnyRoutes \<and> typeof routerModule = ''function''
            \<and> hasOwnProperty routerModule ''use'' \<and> hasOwnProperty routerModule ''handle''
           then Inr a
         else if haveAnyRoutes \<and> truthy routerModule \<and> typeof routerModule = ''function''
            \<and> hasOwnProperty routerModule ''stack''
           then appUse h a routerModule
         else if typeof routerModule = ''object''
           then Inr (forKeys_p0 h a (forInElements routerModule))
         else Inr a)"

text \<open>One round of the loop over the files: the \<^verbatim>\<open>catch\<close> swallows what \<^verbatim>\<open>require\<close> and
  \<^verbatim>\<open>handleExpressRouter\<close> throw.\<close>

definition fuseFile_p0 :: "host \<Rightarrow> app \<Rightarrow> path \<Rightarrow> app" where
  "fuseFile_p0 h a file =
     (case require h file of
        Inl e \<Rightarrow> a
      | Inr routerModule \<Rightarrow>
          if truthy routerModule then
            (case handleExpressRouter h a routerModule of Inl e \<Rightarrow> a | Inr a' \<Rightarrow> a')
          else a)"

fun mountAll_p0 :: "host \<Rightarrow> app \<Rightarrow> path list \<Rightarrow> app" where
  "mountAll_p0 h a [] = a"
| "mountAll_p0 h a (file # rest) = mountAll_p0 h (fuseFile_p0 h a file) rest"

definition fuseRoutes_p0 ::
  "host \<Rightarrow> options \<Rightarrow> node \<Rightarrow> addr \<Rightarrow> app \<Rightarrow> app \<times> error option" where
  "fuseRoutes_p0 h opts tree ref a =
     (case scanProject opts tree of
        Inl e \<Rightarrow> (a, Some e)
      | Inr fs \<Rightarrow> (addHelpRoute opts ref (mountAll_p0 h a fs), None))"

subsection \<open>Calls on the store\<close>

text \<open>The caller's view: the application object at address \<open>ref\<close> is updated in place.\<close>

definition callFuseRoutes_v2 ::
  "host \<Rightarrow> options \<Rightarrow> node \<Rightarrow> store \<Rightarrow> addr \<Rightarrow> store \<times> error option" where
  "callFuseRoutes_v2 h opts tree st ref =
     (case fuseRoutes_v2 h opts tree ref (st ref) of (a', err) \<Rightarrow> (st(ref := a'), err))"

definition callFuseRoutes_mjs ::
  "host \<Rightarrow> options \<Rightarrow> node \<Rightarrow> store \<Rightarrow> addr \<Rightarrow> store \<times> error option" where
  "callFuseRoutes_mjs h opts tree st ref =
     (case fuseRoutes_mjs h opts tree ref (st ref) of (a', err) \<Rightarrow> (st(ref := a'), err))"

text \<open>A later \<^verbatim>\<open>app.use(router)\<close> by the host program.\<close>

definition callUse :: "host \<Rightarrow> store \<Rightarrow> addr \<Rightarrow> jsval \<Rightarrow> store \<times> error option" where
  "callUse h st ref v =
     (case appUse h (st ref) v of
        Inl e \<Rightarrow> (st, Some e)
      | Inr a' \<Rightarrow> (st(ref := a'), None))"

text \<open>A request that reaches a handler: the help closure runs
  \<^verbatim>\<open>extractExpressRoutes(app)\<close> on the object its variable points to when it is called;
  \<open>extractExpressRoutes\<close> is the function of express-routes-extractor. A router handles
  the request itself and gives no route table.\<close>

fun invokeHandler :: "(app \<Rightarrow> 'r) \<Rightarrow> store \<Rightarrow> handler \<Rightarrow> 'r option" where
  "invokeHandler extractExpressRoutes st (HelpHandler ref) =
     Some (extractExpressRoutes (st ref))"
| "invokeHandler extractExpressRoutes st (Router v) = None"

subsection \<open>Vocabulary of the properties\<close>

text \<open>An application on which nothing has been mounted, and the layer that the one-argument
  \<^verbatim>\<open>app.use(v)\<close> pushes.\<close>

definition emptyApp :: app where
  "emptyApp = \<lparr>stack = []\<rparr>"

definition mountLayer :: "jsval \<Rightarrow> layer" where
  "mountLayer v = Layer None (Router v)"

text \<open>Of the values handed to \<^verbatim>\<open>app.use\<close>, those it does not reject.\<close>

definition accepted :: "host \<Rightarrow> jsval list \<Rightarrow> jsval list" where
  "accepted h vs = filter (\<lambda>v. \<not> useThrows h v) vs"

text \<open>What one element of a container contributes: in \<open>v2\<close> the element when it passes
  \<^verbatim>\<open>isExpressRouter\<close>, else its \<^verbatim>\<open>default\<close> slot when that passes; in \<open>p0\<close> the element when
  it is a function with an own \<^verbatim>\<open>stack\<close> that passes.\<close>

definition picks_v2 :: "host \<Rightarrow> jsval \<Rightarrow> jsval list" where
  "picks_v2 h element =
     (if isExpressRouter h element then [element]
      else if isExpressRouter h (getProp element ''default'') then [getProp element ''default'']
      else [])"

definition picks_p0 :: "host \<Rightarrow> jsval \<Rightarrow> jsval list" where
  "picks_p0 h element =
     (if typeof element = ''function'' \<and> hasOwnProperty element ''stack''
         \<and> isExpressRouter h element then [element] else [])"

text \<open>The values \<open>v2\<close>, \<open>mjs\<close> and \<open>p0\<close> hand to \<^verbatim>\<open>app.use\<close> for one loaded module, in
  order.\<close>

definition routed_v2 :: "host \<Rightarrow> jsval \<Rightarrow> jsval list" where
  "routed_v2 h m =
     concat (map (picks_v2 h) (forInElements m))
       @ (if truthy m \<and> isExpressRouter h m then [m] else [])"

definition routed_mjs :: "host \<Rightarrow> jsval \<Rightarrow> jsval list" where
  "routed_mjs h m =
     (if truthy m \<and> isExpressRouter h (getProp m ''default'') then [getProp m ''default'']
      else if isExpressRouter h m then [m] else [])"

definition routed_p0 :: "host \<Rightarrow> jsval \<Rightarrow> jsval list" where
  "routed_p0 h m =
     (if isExpressRouter h m \<and> typeof m = ''function''
          \<and> hasOwnProperty m ''use'' \<and> hasOwnProperty m ''handle'' then []
      else if isExpressRouter h m \<and> truthy m \<and> typeof m = ''function''
          \<and> hasOwnProperty m ''stack'' then [m]
      else if typeof m = ''object'' then concat (map (picks_p0 h) (forInElements m))
      else [])"

text \<open>The structural signature of the whole application, as \<^verbatim>\<open>handleExpressRouter\<close> tests
  it: a function with own \<^verbatim>\<open>use\<close> and own \<^verbatim>\<open>handle\<close>.\<close>

definition applicationLike :: "jsval \<Rightarrow> bool" where
  "applicationLike v =
     (typeof v = ''function'' \<and> hasOwnProperty v ''use'' \<and> hasOwnProperty v ''handle'')"

text \<open>The folder names between the starting path and a file found below it.\<close>

definition foldersBelow :: "path \<Rightarrow> path \<Rightarrow> string list" where
  "foldersBelow root p = butlast (drop (length root) p)"

definition cleanBelow :: "string list \<Rightarrow> path \<Rightarrow> path \<Rightarrow> bool" where
  "cleanBelow excludeFolders root p =
     (take (length root) p = root \<and> length root < length p
      \<and> set (foldersBelow root p) \<inter> set excludeFolders = {})"

text \<open>A directory can be listed; and: every directory the scan enters can be listed and
  every entry it looks at can be examined by \<^verbatim>\<open>stat\<close>.\<close>

fun listable :: "node \<Rightarrow> bool" where
  "listable (Dir es) = True"
| "listable File = False"
| "listable Unlistable = False"
| "listable Missing = False"

fun scanOk :: "string list \<Rightarrow> node \<Rightarrow> bool"
  and entriesOk :: "string list \<Rightarrow> (string \<times> node) list \<Rightarrow> bool" where
  "scanOk excludeFolders (Dir es) = entriesOk excludeFolders es"
| "scanOk excludeFolders File = False"
| "scanOk excludeFolders Unlistable = False"
| "scanOk excludeFolders Missing = False"
| "entriesOk excludeFolders [] = True"
| "entriesOk excludeFolders ((name, n) # rest) =
     (n \<noteq> Missing
      \<and> (if isDirectory n \<and> name \<notin> set excludeFolders then scanOk excludeFolders n else True)
      \<and> entriesOk excludeFolders rest)"



text \<open>The handler of a layer.\<close>

fun layerHandler :: "layer \<Rightarrow> handler" where
  "layerHandler (Layer p handler) = handler"

subsection \<open>Example inputs\<close>

text \<open>Two routers (own \<^verbatim>\<open>stack\<close>, inherited \<^verbatim>\<open>use\<close> and \<^verbatim>\<open>handle\<close>), a value shaped like the
  whole application (own \<^verbatim>\<open>use\<close> and \<^verbatim>\<open>handle\<close>), and two containers.\<close>

definition routerA :: jsval where
  "routerA = JFunction [(''stack'', JObject [] [])]
               [(''use'', JFunction [] []), (''handle'', JFunction [] [])]"

definition routerC :: jsval where
  "routerC = JFunction [(''stack'', JObject [] []), (''strict'', JBool True)]
               [(''use'', JFunction [] []), (''handle'', JFunction [] [])]"

definition wholeApp :: jsval where
  "wholeApp = JFunction [(''use'', JFunction [] []), (''handle'', JFunction [] []),
                         (''stack'', JObject [] [])] []"

definition boxModule :: jsval where
  "boxModule = JObject [(''a'', routerA), (''b'', JNum 42), (''c'', routerC)] []"

definition wrappedModule :: jsval where
  "wrappedModule = JObject [(''a'', JObject [(''default'', routerA)] [])] []"

text \<open>A host in which a router is a function with a \<^verbatim>\<open>stack\<close>, \<^verbatim>\<open>app.use\<close> rejects what is
  not a function, and \<^verbatim>\<open>b.js\<close> throws while it loads. The dynamic import wraps the
  exports in a namespace object.\<close>

definition demoLoad :: "path \<Rightarrow> error + jsval" where
  "demoLoad p =
     (if p = [''srv'', ''a.js''] then Inr routerA
      else if p = [''srv'', ''b.js''] then Inl (LoadError p)
      else if p = [''srv'', ''c.js''] then Inr routerC
      else if p = [''srv'', ''box.js''] then Inr boxModule
      else if p = [''srv'', ''app.js''] then Inr wholeApp
      else if p = [''srv'', ''wrapped.js''] then Inr wrappedModule
      else Inr (JObject [] []))"

definition demoImport :: "path \<Rightarrow> error + jsval" where
  "demoImport p =
     (case demoLoad p of
        Inl e \<Rightarrow> Inl e
      | Inr v \<Rightarrow> Inr (JObject [(''default'', v)] []))"

definition demoHost :: host where
  "demoHost =
     \<lparr>isExpressRouter = (\<lambda>v. typeof v = ''function'' \<and> getProp v ''stack'' \<noteq> JUndefined),
      useThrows = (\<lambda>v. typeof v \<noteq> ''function''),
      require = demoLoad,
      dynamicImport = demoImport\<rparr>"

definition demoOptions :: options where
  "demoOptions = \<lparr>excludeFilter = [], projectPath = [''srv''], helpRoute = True\<rparr>"

definition treeABC :: node where
  "treeABC = Dir [(''a.js'', File), (''b.js'', File), (''c.js'', File)]"

definition treeApp :: node where
  "treeApp = Dir [(''app.js'', File)]"

definition treeLocked :: node where
  "treeLocked = Dir [(''a.js'', File), (''locked'', Unlistable), (''c.js'', File)]"

definition treeNested :: node where
  "treeNested =
     Dir [(''a'', Dir [(''a.js'', File), (''node_modules'', Dir [(''m.js'', File)])]),
          (''build'', Dir [(''x.js'', File)]),
          (''c.js'', File),
          (''secrets.js'', File),
          (''notes.txt'', File)]"

definition treeBox :: node where
  "treeBox = Dir [(''c.js'', File), (''box.js'', File), (''a.js'', File)]"

section \<open>Auxiliary facts\<close>

subsection \<open>Strings\<close>

text \<open>The two string tests are the library's suffix and contiguous-sublist relations.\<close>

lemma take_eq_prefix: "(take (length sub) s = sub) = prefix sub s"
  by (metis append_eq_conv_conj prefix_def take_is_prefix)

lemma includes_iff_sublist: "includes_str s sub = sublist sub s"
proof (induction s)
  case Nil
  show ?case by simp
next
  case (Cons c cs)
  show ?case
    using Cons.IH take_eq_prefix [of sub "c # cs"]
    by (simp add: sublist_Cons_right del: take_Suc_Cons take_Cons')
qed

lemma endsWith_iff_suffix: "endsWith s suf = suffix suf s"
  unfolding endsWith_def
  by (metis suffix_def suffix_drop suffix_length_le append_eq_conv_conj length_append
      add_diff_cancel_right')

lemma endsWith_includes: "endsWith s suf \<Longrightarrow> includes_str s suf"
  by (simp add: includes_iff_sublist endsWith_iff_suffix)

lemma filter_files:
  "files (filterFileAndFolder str) =
     filter (\<lambda>t. includes_str t ''.js'' \<or> includes_str t ''.ts'') (split_on CHR '' '' str)"
  by (simp add: filterFileAndFolder_def Let_def)

lemma filter_folders:
  "folders (filterFileAndFolder str) =
     filter (\<lambda>t. \<not> (includes_str t ''.js'' \<or> includes_str t ''.ts''))
       (split_on CHR '' '' str)"
  unfolding filterFileAndFolder_def Let_def
  by (auto intro: filter_cong)

subsection \<open>The scanner\<close>

lemma cleanBelow_entry: "cleanBelow xf d (d @ [f])"
  by (simp add: cleanBelow_def foldersBelow_def)

lemma cleanBelow_step:
  assumes "cleanBelow xf (d @ [f]) p" and "f \<notin> set xf"
  shows "cleanBelow xf d p"
proof -
  from assms(1) obtain rel where p: "p = (d @ [f]) @ rel" and ne: "rel \<noteq> []"
      and cl: "set (butlast rel) \<inter> set xf = {}"
    unfolding cleanBelow_def foldersBelow_def
    by (metis append_take_drop_id length_0_conv length_drop zero_less_diff
        not_less_iff_gr_or_eq)
  have "drop (length d) p = f # rel" using p by simp
  then show ?thesis using p ne cl assms(2)
    by (simp add: cleanBelow_def foldersBelow_def)
qed

lemma scan_cleanBelow:
  "getAllJsTsFiles d t xf xs = Inr ps \<Longrightarrow> \<forall>p\<in>set ps. cleanBelow xf d p"
  "scanEntries d es xf xs acc = Inr ps \<Longrightarrow> \<forall>p\<in>set acc. cleanBelow xf d p
     \<Longrightarrow> \<forall>p\<in>set ps. cleanBelow xf d p"
proof (induction d t xf xs and d es xf xs acc arbitrary: ps and ps
    rule: getAllJsTsFiles_scanEntries.induct)
  case (6 d f n rest xf xs acc)
  then show ?case
    by (fastforce split: if_splits sum.splits simp: cleanBelow_step cleanBelow_entry)
qed auto

lemma scan_fails_iff:
  "isl (getAllJsTsFiles d t xf xs) = (\<not> scanOk xf t)"
  "isl (scanEntries d es xf xs acc) = (\<not> entriesOk xf es)"
proof (induction d t xf xs and d es xf xs acc rule: getAllJsTsFiles_scanEntries.induct)
  case (6 d f n rest xf xs acc)
  then show ?case
    by (auto split: sum.splits simp: isl_def)
qed auto

lemma scan_mjs_fails_iff: "isl (getAllJsTsFiles_mjs d t xf xs) = (\<not> listable t)"
  by (cases t) simp_all

lemma scan_root_error:
  "\<not> listable t \<Longrightarrow> getAllJsTsFiles d t xf xs = Inl (ReaddirError d)"
  "\<not> listable t \<Longrightarrow> getAllJsTsFiles_mjs d t xf xs = Inl (ReaddirError d)"
  by (cases t; simp)+

subsection \<open>Listing orders\<close>









subsection \<open>Mounting\<close>

lemma emptyApp_stack: "stack emptyApp = []"
  by (simp add: emptyApp_def)

lemma accepted_Nil: "accepted h [] = []"
  by (simp add: accepted_def)

lemma accepted_append: "accepted h (xs @ ys) = accepted h xs @ accepted h ys"
  by (simp add: accepted_def)

lemma tryUse_stack: "stack (tryUse h a v) = stack a @ map mountLayer (accepted h [v])"
  by (simp add: tryUse_def appUse_def accepted_def mountLayer_def)

lemma mountElement_v2_stack:
  "stack (mountElement_v2 h a e) = stack a @ map mountLayer (accepted h (picks_v2 h e))"
  by (simp add: mountElement_v2_def picks_v2_def tryUse_stack) (simp add: accepted_def)

lemma forKeys_v2_stack:
  "stack (forKeys_v2 h a es)
     = stack a @ map mountLayer (accepted h (concat (map (picks_v2 h) es)))"
  by (induction es arbitrary: a) (simp_all add: accepted_def mountElement_v2_stack)

lemma mountElement_p0_stack:
  "stack (mountElement_p0 h a e) = stack a @ map mountLayer (accepted h (picks_p0 h e))"
  by (simp add: mountElement_p0_def picks_p0_def tryUse_stack) (simp add: accepted_def)

lemma forKeys_p0_stack:
  "stack (forKeys_p0 h a es)
     = stack a @ map mountLayer (accepted h (concat (map (picks_p0 h) es)))"
  by (induction es arbitrary: a) (simp_all add: accepted_def mountElement_p0_stack)

text \<open>One round of each loop pushes the accepted values of the loaded module, and nothing
  when loading throws.\<close>

lemma fuseFile_v2_stack:
  "stack (fuseFile_v2 h a f) = stack a @ map mountLayer
     (case require h f of Inl e \<Rightarrow> [] | Inr m \<Rightarrow> accepted h (routed_v2 h m))"
  by (simp add: fuseFile_v2_def routed_v2_def Let_def tryUse_stack forKeys_v2_stack
      accepted_append accepted_Nil split: sum.splits)

lemma fuseFile_mjs_stack:
  "stack (fuseFile_mjs h a f) = stack a @ map mountLayer
     (accepted h (routed_mjs h
        (case dynamicImport h f of Inl e \<Rightarrow> JUndefined | Inr m \<Rightarrow> m)))"
  by (simp add: fuseFile_mjs_def routed_mjs_def Let_def tryUse_stack accepted_Nil)

lemma handleExpressRouter_stack:
  "stack (case handleExpressRouter h a m of Inl e \<Rightarrow> a | Inr a' \<Rightarrow> a')
     = stack a @ map mountLayer (accepted h (routed_p0 h m))"
  by (simp add: handleExpressRouter_def routed_p0_def Let_def appUse_def forKeys_p0_stack
      accepted_Nil)
     (simp add: accepted_def mountLayer_def)

lemma fuseFile_p0_stack:
  "stack (fuseFile_p0 h a f) = stack a @ map mountLayer
     (case require h f of
        Inl e \<Rightarrow> []
      | Inr m \<Rightarrow> if truthy m then accepted h (routed_p0 h m) else [])"
  by (simp add: fuseFile_p0_def handleExpressRouter_stack split: sum.splits)

lemma fuseFile_v2_empty:
  "stack (fuseFile_v2 h a f) = stack a @ stack (fuseFile_v2 h emptyApp f)"
  by (simp add: fuseFile_v2_stack emptyApp_stack)

lemma fuseFile_mjs_empty:
  "stack (fuseFile_mjs h a f) = stack a @ stack (fuseFile_mjs h emptyApp f)"
  by (simp add: fuseFile_mjs_stack emptyApp_stack)

lemma fuseFile_p0_empty:
  "stack (fuseFile_p0 h a f) = stack a @ stack (fuseFile_p0 h emptyApp f)"
  by (simp add: fuseFile_p0_stack emptyApp_stack)

text \<open>The loop over the files pushes the rounds' layers one candidate after the other.\<close>

lemma mountAll_v2_stack:
  "stack (mountAll_v2 h a fs)
     = stack a @ concat (map (\<lambda>f. stack (fuseFile_v2 h emptyApp f)) fs)"
proof (induction fs arbitrary: a)
  case Nil
  show ?case by simp
next
  case (Cons f fs)
  show ?case by (simp add: Cons.IH fuseFile_v2_empty [of h a])
qed

lemma mountAll_mjs_stack:
  "stack (mountAll_mjs h a fs)
     = stack a @ concat (map (\<lambda>f. stack (fuseFile_mjs h emptyApp f)) fs)"
proof (induction fs arbitrary: a)
  case Nil
  show ?case by simp
next
  case (Cons f fs)
  show ?case by (simp add: Cons.IH fuseFile_mjs_empty [of h a])
qed

lemma mountAll_p0_stack:
  "stack (mountAll_p0 h a fs)
     = stack a @ concat (map (\<lambda>f. stack (fuseFile_p0 h emptyApp f)) fs)"
proof (induction fs arbitrary: a)
  case Nil
  show ?case by simp
next
  case (Cons f fs)
  show ?case by (simp add: Cons.IH fuseFile_p0_empty [of h a])
qed

lemma addHelpRoute_stack:
  "stack (addHelpRoute opts ref a) = stack a @ stack (addHelpRoute opts ref emptyApp)"
  by (simp add: addHelpRoute_def emptyApp_stack)

text \<open>A candidate whose loading throws leaves the application as it was.\<close>

lemma fuseFile_v2_throws: "isl (require h f) \<Longrightarrow> fuseFile_v2 h a f = a"
  by (cases "require h f") (simp_all add: fuseFile_v2_def)

lemma fuseFile_p0_throws: "isl (require h f) \<Longrightarrow> fuseFile_p0 h a f = a"
  by (cases "require h f") (simp_all add: fuseFile_p0_def)

lemma fuseFile_mjs_throws:
  "isl (dynamicImport h f) \<Longrightarrow> \<not> isExpressRouter h JUndefined \<Longrightarrow> fuseFile_mjs h a f = a"
  by (cases "dynamicImport h f") (simp_all add: fuseFile_mjs_def)

lemma mountAll_v2_skip:
  "mountAll_v2 h a fs = mountAll_v2 h a (filter (\<lambda>f. \<not> isl (require h f)) fs)"
  by (induction fs arbitrary: a) (simp_all add: fuseFile_v2_throws)

lemma mountAll_p0_skip:
  "mountAll_p0 h a fs = mountAll_p0 h a (filter (\<lambda>f. \<not> isl (require h f)) fs)"
  by (induction fs arbitrary: a) (simp_all add: fuseFile_p0_throws)

lemma mountAll_mjs_skip:
  "\<not> isExpressRouter h JUndefined \<Longrightarrow>
   mountAll_mjs h a fs = mountAll_mjs h a (filter (\<lambda>f. \<not> isl (dynamicImport h f)) fs)"
  by (induction fs arbitrary: a) (simp_all add: fuseFile_mjs_throws)

text \<open>The layers a whole run pushes, when the scan succeeds.\<close>

lemma fuseRoutes_v2_stack:
  "scanProject opts tree = Inr fs \<Longrightarrow>
   stack (fst (fuseRoutes_v2 h opts tree ref a))
     = stack a
       @ map mountLayer (concat (map (\<lambda>f. case require h f of
                                             Inl e \<Rightarrow> []
                                           | Inr m \<Rightarrow> accepted h (routed_v2 h m)) fs))
       @ stack (addHelpRoute opts ref emptyApp)"
  by (simp add: fuseRoutes_v2_def addHelpRoute_stack [of opts ref "mountAll_v2 h a fs"]
      mountAll_v2_stack fuseFile_v2_stack emptyApp_stack map_concat comp_def)

lemma fuseRoutes_p0_stack:
  "scanProject opts tree = Inr fs \<Longrightarrow>
   stack (fst (fuseRoutes_p0 h opts tree ref a))
     = stack a
       @ map mountLayer (concat (map (\<lambda>f. case require h f of
                                             Inl e \<Rightarrow> []
                                           | Inr m \<Rightarrow> if truthy m then accepted h (routed_p0 h m)
                                                     else []) fs))
       @ stack (addHelpRoute opts ref emptyApp)"
  by (simp add: fuseRoutes_p0_def addHelpRoute_stack [of opts ref "mountAll_p0 h a fs"]
      mountAll_p0_stack fuseFile_p0_stack emptyApp_stack map_concat comp_def)

lemma fuseRoutes_mjs_stack:
  "scanProject_mjs opts tree = Inr fs \<Longrightarrow>
   stack (fst (fuseRoutes_mjs h opts tree ref a))
     = stack a
       @ map mountLayer (concat (map (\<lambda>f. accepted h (routed_mjs h
             (case dynamicImport h f of Inl e \<Rightarrow> JUndefined | Inr m \<Rightarrow> m))) fs))
       @ stack (addHelpRoute opts ref emptyApp)"
  by (simp add: fuseRoutes_mjs_def addHelpRoute_stack [of opts ref "mountAll_mjs h a fs"]
      mountAll_mjs_stack fuseFile_mjs_stack emptyApp_stack map_concat comp_def)

lemma scan_mjs_cleanBelow:
  "getAllJsTsFiles_mjs d t xf xs = Inr ps \<Longrightarrow> \<forall>p\<in>set ps. cleanBelow xf d p"
  "\<forall>p\<in>set acc. cleanBelow xf d p
     \<Longrightarrow> \<forall>p\<in>set (scanEntries_mjs d es xf xs acc). cleanBelow xf d p"
proof (induction d t xf xs and d es xf xs acc arbitrary: ps
    rule: getAllJsTsFiles_mjs_scanEntries_mjs.induct)
  case (1 d es xf xs)
  then show ?case by auto
next
  case (6 d f n rest xf xs acc)
  show ?case
  proof (cases "n = Missing")
    case True
    then show ?thesis using "6.IH"(1) [OF True "6.prems"] by simp
  next
    case nm: False
    show ?thesis
    proof (cases "isDirectory n \<and> f \<notin> set xf")
      case dir: True
      show ?thesis
      proof (cases "getAllJsTsFiles_mjs (d @ [f]) n xf xs")
        case (Inl e)
        then show ?thesis using "6.IH"(3) [OF nm dir Inl "6.prems"] nm dir by simp
      next
        case (Inr sub)
        have "\<forall>p\<in>set sub. cleanBelow xf (d @ [f]) p"
          using "6.IH"(2) [OF nm dir Inr] .
        then have "\<forall>p\<in>set (acc @ sub). cleanBelow xf d p"
          using dir "6.prems" cleanBelow_step by auto
        from "6.IH"(4) [OF nm dir Inr this] show ?thesis using nm dir Inr by simp
      qed
    next
      case nd: False
      then have c: "(isDirectory n \<and> f \<notin> set xf) = False" by simp
      show ?thesis
      proof (cases "isJsTs f \<and> f \<notin> set xs")
        case True
        have "\<forall>p\<in>set (acc @ [d @ [f]]). cleanBelow xf d p"
          using "6.prems" cleanBelow_entry by auto
        from "6.IH"(5) [OF nm nd True this] show ?thesis using nm True by (simp add: c)
      next
        case False
        then have c': "(isJsTs f \<and> f \<notin> set xs) = False" by simp
        from "6.IH"(6) [OF nm nd False "6.prems"] show ?thesis using nm by (simp add: c c')
      qed
    qed
  qed
qed simp_all

text \<open>The two default folders are in every list of excluded folders.\<close>

lemma default_folders_excluded:
  "''node_modules'' \<in> set (DEFAULT_EXCLUDE_FOLDERS @ ds)"
  "''.git'' \<in> set (DEFAULT_EXCLUDE_FOLDERS @ ds)"
  by (simp_all add: DEFAULT_EXCLUDE_FOLDERS_def)

text \<open>A value that is picked and accepted is among the pushed layers.\<close>

lemma mounted_member:
  assumes "x \<in> set xs" and "\<not> useThrows h x"
  shows "mountLayer x \<in> set (sa @ map mountLayer (accepted h (xs @ rest)))"
    and "mountLayer x \<in> set (sa @ map mountLayer (accepted h xs))"
  using assms by (simp_all add: accepted_def)

text \<open>The first variant's loop pushes bare mounts only, also when it is cut short.\<close>

lemma mountAll_v1_stack:
  "\<exists>vs. stack (fst (mountAll_v1 h a fs)) = stack a @ map mountLayer vs"
proof (induction fs arbitrary: a)
  case Nil
  have "stack (fst (mountAll_v1 h a [])) = stack a @ map mountLayer []" by simp
  then show ?case by blast
next
  case (Cons f fs)
  show ?case
  proof (cases "require h f")
    case (Inl e)
    then have "stack (fst (mountAll_v1 h a (f # fs))) = stack a @ map mountLayer []" by simp
    then show ?thesis by blast
  next
    case (Inr m)
    show ?thesis
    proof (cases "isExpressRouter h m \<and> \<not> useThrows h m")
      case True
      let ?a' = "a\<lparr>stack := stack a @ [mountLayer m]\<rparr>"
      from Cons.IH [of ?a'] obtain vs
        where "stack (fst (mountAll_v1 h ?a' fs)) = stack ?a' @ map mountLayer vs" by blast
      then have "stack (fst (mountAll_v1 h a (f # fs))) = stack a @ map mountLayer (m # vs)"
        using Inr True by (simp add: appUse_def mountLayer_def)
      then show ?thesis by blast
    next
      case False
      show ?thesis
      proof (cases "isExpressRouter h m")
        case True
        then have "stack (fst (mountAll_v1 h a (f # fs))) = stack a @ map mountLayer []"
          using Inr False by (simp add: appUse_def)
        then show ?thesis by blast
      next
        case nr: False
        from Cons.IH [of a] obtain vs
          where "stack (fst (mountAll_v1 h a fs)) = stack a @ map mountLayer vs" by blast
        then have "stack (fst (mountAll_v1 h a (f # fs))) = stack a @ map mountLayer vs"
          using Inr nr by simp
        then show ?thesis by blast
      qed
    qed
  qed
qed

lemma helpLayer_stack:
  "stack (addHelpRoute opts ref emptyApp)
     = (if helpRoute opts then [Layer (Some ''/help'') (HelpHandler ref)] else [])"
  by (simp add: addHelpRoute_def emptyApp_def)

subsection \<open>The help route\<close>

text \<open>A scan that meets no failure returns a list; and what holds after a run that ends by
  registering the help handler.\<close>

lemma scanProject_succeeds:
  "scanOk (DEFAULT_EXCLUDE_FOLDERS @ folders (filterFileAndFolder (excludeFilter opts))) tree
     \<Longrightarrow> \<exists>fs. scanProject opts tree = Inr fs"
  using scan_fails_iff(1)
    [of "projectPath opts" tree
        "DEFAULT_EXCLUDE_FOLDERS @ folders (filterFileAndFolder (excludeFilter opts))"
        "files (filterFileAndFolder (excludeFilter opts))"]
  by (cases "scanProject opts tree") (simp_all add: scanProject_def Let_def)

lemma scanProject_mjs_succeeds:
  "listable tree \<Longrightarrow> \<exists>fs. scanProject_mjs opts tree = Inr fs"
  by (cases tree) (simp_all add: scanProject_mjs_def Let_def)

lemma help_after_run:
  assumes "helpRoute opts" and "\<not> useThrows h r"
    and run: "run = (st(ref := addHelpRoute opts ref a'), None)"
  shows "snd run = None
       \<and> snd (callUse h (fst run) ref r) = None
       \<and> last (stack (fst run ref)) = Layer (Some ''/help'') (HelpHandler ref)
       \<and> stack (fst (callUse h (fst run) ref r) ref)
           = stack (fst run ref) @ [Layer None (Router r)]
       \<and> invokeHandler extractExpressRoutes (fst (callUse h (fst run) ref r))
            (layerHandler (last (stack (fst run ref))))
           = Some (extractExpressRoutes (fst (callUse h (fst run) ref r) ref))"
proof -
  have l: "last (stack (fst run ref)) = Layer (Some ''/help'') (HelpHandler ref)"
    using assms(1) by (simp add: run addHelpRoute_def)
  have u: "callUse h (fst run) ref r
             = ((fst run)(ref := (fst run ref)\<lparr>stack := stack (fst run ref)
                                                   @ [Layer None (Router r)]\<rparr>), None)"
    using assms(2) by (simp add: callUse_def appUse_def)
  show ?thesis
    unfolding l u by (simp add: run)
qed

section \<open>The claims\<close>

subsection \<open>C1: mounting order\<close>

text \<open>
  C1. In a run of \<open>v2\<close> and of \<open>p0\<close> whose scan succeeds, the layers pushed on the
  application are, candidate after candidate in the order of the scanner's list, the
  values of that candidate's module that \<^verbatim>\<open>app.use\<close> accepts, followed by the help layer when
  it is asked for. Within one module the values come in the order of \<open>routed_v2\<close> and
  \<open>routed_p0\<close>: the members of a container in the order \<^verbatim>\<open>for ... in\<close> visits its keys. So
  no mount for a later candidate stands before a mount for an earlier one.
\<close>

theorem mount_order_follows_scan:
  assumes "scanProject opts tree = Inr fs"
  shows "stack (fst (fuseRoutes_v2 h opts tree ref a))
           = stack a
             @ map mountLayer (concat (map (\<lambda>f. case require h f of
                                             Inl e \<Rightarrow> []
                                           | Inr m \<Rightarrow> accepted h (routed_v2 h m)) fs))
             @ stack (addHelpRoute opts ref emptyApp)
       \<and> stack (fst (fuseRoutes_p0 h opts tree ref a))
           = stack a
             @ map mountLayer (concat (map (\<lambda>f. case require h f of
                                             Inl e \<Rightarrow> []
                                           | Inr m \<Rightarrow> if truthy m then accepted h (routed_p0 h m)
                                                     else []) fs))
             @ stack (addHelpRoute opts ref emptyApp)"
  using assms by (simp only: fuseRoutes_v2_stack fuseRoutes_p0_stack simp_thms)

text \<open>Three candidates, the second a container of two routers.\<close>

theorem mount_order_follows_scan_witness:
  "scanProject demoOptions treeBox
     = Inr [[''srv'', ''c.js''], [''srv'', ''box.js''], [''srv'', ''a.js'']]
   \<and> stack (fst (fuseRoutes_v2 demoHost demoOptions treeBox 0 emptyApp))
     = [mountLayer routerC, mountLayer routerA, mountLayer routerC, mountLayer routerA,
        Layer (Some ''/help'') (HelpHandler 0)]
   \<and> stack (fst (fuseRoutes_p0 demoHost demoOptions treeBox 0 emptyApp))
     = [mountLayer routerC, mountLayer routerA, mountLayer routerC, mountLayer routerA,
        Layer (Some ''/help'') (HelpHandler 0)]"
proof -
  have s: "scanProject demoOptions treeBox
     = Inr [[''srv'', ''c.js''], [''srv'', ''box.js''], [''srv'', ''a.js'']]"
    by code_simp
  have r: "map (\<lambda>f. case require demoHost f of
                      Inl e \<Rightarrow> []
                    | Inr m \<Rightarrow> accepted demoHost (routed_v2 demoHost m))
             [[''srv'', ''c.js''], [''srv'', ''box.js''], [''srv'', ''a.js'']]
           = [[routerC], [routerA, routerC], [routerA]]"
    by code_simp
  have r0: "map (\<lambda>f. case require demoHost f of
                       Inl e \<Rightarrow> []
                     | Inr m \<Rightarrow> if truthy m then accepted demoHost (routed_p0 demoHost m)
                               else [])
             [[''srv'', ''c.js''], [''srv'', ''box.js''], [''srv'', ''a.js'']]
           = [[routerC], [routerA, routerC], [routerA]]"
    by code_simp
  have hlp: "stack (addHelpRoute demoOptions 0 emptyApp)
               = [Layer (Some ''/help'') (HelpHandler 0)]"
    by code_simp
  show ?thesis
    using mount_order_follows_scan [OF s, of demoHost 0 emptyApp]
    unfolding r r0 hlp
    by (simp add: s emptyApp_stack)
qed

subsection \<open>C3: the default exclusions\<close>

text \<open>
  C3. Whatever the \<^verbatim>\<open>excludeFilter\<close>, every path in the scanner's list lies below the
  starting path, and no folder on the way from the starting path to the file is named
  \<^verbatim>\<open>node_modules\<close> or \<^verbatim>\<open>.git\<close>: \<open>scanProject\<close> always puts the two default folders in
  front of the caller's. Both scanners.
\<close>

theorem default_folders_never_scanned:
  assumes "scanProject opts tree = Inr ps \<or> scanProject_mjs opts tree = Inr ps"
    and "p \<in> set ps"
  shows "take (length (projectPath opts)) p = projectPath opts
       \<and> ''node_modules'' \<notin> set (foldersBelow (projectPath opts) p)
       \<and> ''.git'' \<notin> set (foldersBelow (projectPath opts) p)"
proof -
  define xf where "xf = DEFAULT_EXCLUDE_FOLDERS @ folders (filterFileAndFolder (excludeFilter opts))"
  have "cleanBelow xf (projectPath opts) p"
    using assms scan_cleanBelow(1) scan_mjs_cleanBelow(1)
    unfolding scanProject_def scanProject_mjs_def Let_def xf_def
    by blast
  moreover have "''node_modules'' \<in> set xf" "''.git'' \<in> set xf"
    unfolding xf_def by (rule default_folders_excluded)+
  ultimately show ?thesis
    unfolding cleanBelow_def by blast
qed

text \<open>With the empty filter, \<^verbatim>\<open>a/node_modules/m.js\<close> is left out.\<close>

theorem default_folders_never_scanned_witness:
  "scanProject demoOptions treeNested
     = Inr [[''srv'', ''a'', ''a.js''], [''srv'', ''build'', ''x.js''], [''srv'', ''c.js''],
            [''srv'', ''secrets.js'']]
   \<and> foldersBelow (projectPath demoOptions) [''srv'', ''a'', ''a.js''] = [''a'']
   \<and> ''node_modules'' \<notin> set (foldersBelow (projectPath demoOptions) [''srv'', ''a'', ''a.js''])
   \<and> ''.git'' \<notin> set (foldersBelow (projectPath demoOptions) [''srv'', ''a'', ''a.js''])"
proof -
  have s: "scanProject demoOptions treeNested
     = Inr [[''srv'', ''a'', ''a.js''], [''srv'', ''build'', ''x.js''], [''srv'', ''c.js''],
            [''srv'', ''secrets.js'']]"
    by code_simp
  have f: "foldersBelow (projectPath demoOptions) [''srv'', ''a'', ''a.js''] = [''a'']"
    by code_simp
  show ?thesis
    using default_folders_never_scanned [of demoOptions treeNested _ "[''srv'', ''a'', ''a.js'']"] s f
    by simp
qed

subsection \<open>C7: the scan and the order of the listings\<close>




subsection \<open>C8: files and folders of the filter\<close>

text \<open>
  C8, as stated, fails: a token becomes an excluded file name when it contains
  \<^verbatim>\<open>.js\<close> or \<^verbatim>\<open>.ts\<close> anywhere, so \<^verbatim>\<open>data.json\<close>, which the scanner does not recognise
  as a source file, is an excluded file and not an excluded folder.
\<close>

theorem substring_token_counterexample:
  "\<not> isJsTs ''data.json''
   \<and> files (filterFileAndFolder ''build data.json'') = [''data.json'']
   \<and> folders (filterFileAndFolder ''build data.json'') = [''build'']"
  by code_simp

text \<open>
  C8, amended. The excluded files are exactly the tokens that contain \<^verbatim>\<open>.js\<close> or
  \<^verbatim>\<open>.ts\<close>, the excluded folders exactly the other tokens; every token with a recognised
  source extension is an excluded file and not an excluded folder; and the filter
  \<^verbatim>\<open>build secrets.js\<close> excludes the folder \<^verbatim>\<open>build\<close> and the file \<^verbatim>\<open>secrets.js\<close> while their
  siblings stay in the list.
\<close>

theorem filter_splits_on_substring:
  "files (filterFileAndFolder str)
     = filter (\<lambda>t. includes_str t ''.js'' \<or> includes_str t ''.ts'') (split_on CHR '' '' str)
   \<and> folders (filterFileAndFolder str)
     = filter (\<lambda>t. \<not> (includes_str t ''.js'' \<or> includes_str t ''.ts''))
         (split_on CHR '' '' str)
   \<and> (\<forall>t \<in> set (split_on CHR '' '' str).
         isJsTs t \<longrightarrow> t \<in> set (files (filterFileAndFolder str))
                      \<and> t \<notin> set (folders (filterFileAndFolder str)))
   \<and> filterFileAndFolder ''build secrets.js'' = \<lparr>files = [''secrets.js''], folders = [''build'']\<rparr>
   \<and> scanProject (demoOptions\<lparr>excludeFilter := ''build secrets.js''\<rparr>) treeNested
       = Inr [[''srv'', ''a'', ''a.js''], [''srv'', ''c.js'']]"
proof -
  have ex1: "filterFileAndFolder ''build secrets.js''
               = \<lparr>files = [''secrets.js''], folders = [''build'']\<rparr>"
    by code_simp
  have ex2: "scanProject (demoOptions\<lparr>excludeFilter := ''build secrets.js''\<rparr>) treeNested
       = Inr [[''srv'', ''a'', ''a.js''], [''srv'', ''c.js'']]"
    by code_simp
  have inc: "isJsTs t \<Longrightarrow> includes_str t ''.js'' \<or> includes_str t ''.ts''" for t
    unfolding isJsTs_def using endsWith_includes by blast
  show ?thesis
    using inc by (simp add: filter_files filter_folders ex1 ex2)
qed

theorem filter_splits_on_substring_witness:
  "isJsTs ''secrets.js''
   \<and> ''secrets.js'' \<in> set (split_on CHR '' '' ''build secrets.js'')
   \<and> ''secrets.js'' \<in> set (files (filterFileAndFolder ''build secrets.js''))
   \<and> ''secrets.js'' \<notin> set (folders (filterFileAndFolder ''build secrets.js''))"
proof -
  have a: "isJsTs ''secrets.js''" by code_simp
  have b: "''secrets.js'' \<in> set (split_on CHR '' '' ''build secrets.js'')" by code_simp
  show ?thesis
    using filter_splits_on_substring [of "''build secrets.js''"] a b by blast
qed

subsection \<open>C2: a candidate that throws while loading\<close>

text \<open>
  C2, as stated, fails in \<open>v1\<close>: the loop has no \<^verbatim>\<open>try\<close> of its own, so when \<^verbatim>\<open>b.js\<close>
  throws in \<^verbatim>\<open>require\<close> the run ends with that error, and the router of \<^verbatim>\<open>c.js\<close> is never
  mounted.
\<close>

theorem throwing_require_aborts_v1:
  "scanProject demoOptions treeABC
     = Inr [[''srv'', ''a.js''], [''srv'', ''b.js''], [''srv'', ''c.js'']]
   \<and> require demoHost [''srv'', ''b.js''] = Inl (LoadError [''srv'', ''b.js''])
   \<and> require demoHost [''srv'', ''c.js''] = Inr routerC
   \<and> isExpressRouter demoHost routerC
   \<and> fuseRoutes_v1 demoHost demoOptions treeABC emptyApp
       = (\<lparr>stack = [mountLayer routerA]\<rparr>, Some (LoadError [''srv'', ''b.js'']))"
  by code_simp

text \<open>
  C2, amended. In \<open>v2\<close>, \<open>p0\<close> and \<open>mjs\<close> a run whose scan succeeds returns without an
  error, and leaves the application as the same run would on the list without the
  candidates whose loading throws: every other candidate is loaded and mounted as usual.
  (In \<open>mjs\<close> a failed import leaves \<^verbatim>\<open>undefined\<close>, which \<^verbatim>\<open>isExpressRouter\<close> is taken to
  reject.)
\<close>

theorem throwing_candidate_is_skipped:
  assumes "scanProject opts tree = Inr fs" and "scanProject_mjs opts tree = Inr gs"
    and "\<not> isExpressRouter h JUndefined"
  shows "fuseRoutes_v2 h opts tree ref a
           = (addHelpRoute opts ref
                (mountAll_v2 h a (filter (\<lambda>f. \<not> isl (require h f)) fs)), None)
       \<and> fuseRoutes_p0 h opts tree ref a
           = (addHelpRoute opts ref
                (mountAll_p0 h a (filter (\<lambda>f. \<not> isl (require h f)) fs)), None)
       \<and> fuseRoutes_mjs h opts tree ref a
           = (addHelpRoute opts ref
                (mountAll_mjs h a (filter (\<lambda>f. \<not> isl (dynamicImport h f)) gs)), None)"
  using assms mountAll_v2_skip [of h a fs] mountAll_p0_skip [of h a fs]
    mountAll_mjs_skip [of h a gs]
  by (simp add: fuseRoutes_v2_def fuseRoutes_p0_def fuseRoutes_mjs_def)

theorem throwing_candidate_is_skipped_witness:
  "scanProject demoOptions treeABC
     = Inr [[''srv'', ''a.js''], [''srv'', ''b.js''], [''srv'', ''c.js'']]
   \<and> filter (\<lambda>f. \<not> isl (require demoHost f))
        [[''srv'', ''a.js''], [''srv'', ''b.js''], [''srv'', ''c.js'']]
     = [[''srv'', ''a.js''], [''srv'', ''c.js'']]
   \<and> fuseRoutes_v2 demoHost demoOptions treeABC 0 emptyApp
     = (\<lparr>stack = [mountLayer routerA, mountLayer routerC,
                    Layer (Some ''/help'') (HelpHandler 0)]\<rparr>, None)
   \<and> fuseRoutes_p0 demoHost demoOptions treeABC 0 emptyApp
     = (\<lparr>stack = [mountLayer routerA, mountLayer routerC,
                    Layer (Some ''/help'') (HelpHandler 0)]\<rparr>, None)
   \<and> fuseRoutes_mjs demoHost demoOptions treeABC 0 emptyApp
     = (\<lparr>stack = [mountLayer routerA, mountLayer routerC,
                    Layer (Some ''/help'') (HelpHandler 0)]\<rparr>, None)"
proof -
  have s: "scanProject demoOptions treeABC
     = Inr [[''srv'', ''a.js''], [''srv'', ''b.js''], [''srv'', ''c.js'']]"
    by code_simp
  have sm: "scanProject_mjs demoOptions treeABC
     = Inr [[''srv'', ''a.js''], [''srv'', ''b.js''], [''srv'', ''c.js'']]"
    by code_simp
  have u: "\<not> isExpressRouter demoHost JUndefined"
    by code_simp
  have f: "filter (\<lambda>f. \<not> isl (require demoHost f))
        [[''srv'', ''a.js''], [''srv'', ''b.js''], [''srv'', ''c.js'']]
     = [[''srv'', ''a.js''], [''srv'', ''c.js'']]"
    by code_simp
  have fm: "filter (\<lambda>f. \<not> isl (dynamicImport demoHost f))
        [[''srv'', ''a.js''], [''srv'', ''b.js''], [''srv'', ''c.js'']]
     = [[''srv'', ''a.js''], [''srv'', ''c.js'']]"
    by code_simp
  have r2: "addHelpRoute demoOptions 0
              (mountAll_v2 demoHost emptyApp [[''srv'', ''a.js''], [''srv'', ''c.js'']])
            = \<lparr>stack = [mountLayer routerA, mountLayer routerC,
                    Layer (Some ''/help'') (HelpHandler 0)]\<rparr>"
    by code_simp
  have r0: "addHelpRoute demoOptions 0
              (mountAll_p0 demoHost emptyApp [[''srv'', ''a.js''], [''srv'', ''c.js'']])
            = \<lparr>stack = [mountLayer routerA, mountLayer routerC,
                    Layer (Some ''/help'') (HelpHandler 0)]\<rparr>"
    by code_simp
  have rm: "addHelpRoute demoOptions 0
              (mountAll_mjs demoHost emptyApp [[''srv'', ''a.js''], [''srv'', ''c.js'']])
            = \<lparr>stack = [mountLayer routerA, mountLayer routerC,
                    Layer (Some ''/help'') (HelpHandler 0)]\<rparr>"
    by code_simp
  show ?thesis
    using throwing_candidate_is_skipped [OF s sm u, of 0 emptyApp]
    unfolding f fm r2 r0 rm
    by (simp add: s f)
qed

subsection \<open>C4: a directory that cannot be read\<close>

text \<open>
  C4, as stated, fails in \<open>mjs\<close>: the scanner catches what goes wrong below the starting
  directory, so a subfolder that cannot be listed is skipped, the run returns without an
  error and the routers around it are mounted.
\<close>

theorem unlistable_subfolder_skipped_mjs:
  "\<not> scanOk (DEFAULT_EXCLUDE_FOLDERS @ folders (filterFileAndFolder (excludeFilter demoOptions)))
       treeLocked
   \<and> getAllJsTsFiles_mjs [''srv'', ''locked''] Unlistable
         (DEFAULT_EXCLUDE_FOLDERS @ folders (filterFileAndFolder (excludeFilter demoOptions)))
         (files (filterFileAndFolder (excludeFilter demoOptions)))
       = Inl (ReaddirError [''srv'', ''locked''])
   \<and> fuseRoutes_mjs demoHost demoOptions treeLocked 0 emptyApp
       = (\<lparr>stack = [mountLayer routerA, mountLayer routerC,
                      Layer (Some ''/help'') (HelpHandler 0)]\<rparr>, None)"
  by code_simp

text \<open>
  C4, amended. When the scan fails, every variant returns that error to the caller with
  the application untouched. The scan of \<open>v1\<close>, \<open>v2\<close> and \<open>p0\<close> fails exactly when some
  directory it enters cannot be listed or some entry it looks at cannot be examined; the
  scan of \<open>mjs\<close> fails exactly when the starting directory cannot be listed. A starting
  directory that cannot be listed gives the read error with the starting path in both.
  In \<open>v2\<close>, \<open>p0\<close> and \<open>mjs\<close> a run ends with an error only when the scan does.
\<close>

theorem scan_failure_aborts_before_mounting:
  "(scanProject opts tree = Inl e \<longrightarrow>
      fuseRoutes_v1 h opts tree a = (a, Some e)
      \<and> fuseRoutes_v2 h opts tree ref a = (a, Some e)
      \<and> fuseRoutes_p0 h opts tree ref a = (a, Some e))
   \<and> (scanProject_mjs opts tree = Inl e \<longrightarrow> fuseRoutes_mjs h opts tree ref a = (a, Some e))
   \<and> isl (scanProject opts tree)
       = (\<not> scanOk (DEFAULT_EXCLUDE_FOLDERS @ folders (filterFileAndFolder (excludeFilter opts)))
              tree)
   \<and> isl (scanProject_mjs opts tree) = (\<not> listable tree)
   \<and> (\<not> listable tree \<longrightarrow>
        scanProject opts tree = Inl (ReaddirError (projectPath opts))
        \<and> scanProject_mjs opts tree = Inl (ReaddirError (projectPath opts)))
   \<and> (snd (fuseRoutes_v2 h opts tree ref a) = Some e \<longrightarrow> scanProject opts tree = Inl e)
   \<and> (snd (fuseRoutes_p0 h opts tree ref a) = Some e \<longrightarrow> scanProject opts tree = Inl e)
   \<and> (snd (fuseRoutes_mjs h opts tree ref a) = Some e \<longrightarrow> scanProject_mjs opts tree = Inl e)"
proof -
  have a1: "scanProject opts tree = Inl e \<longrightarrow>
      fuseRoutes_v1 h opts tree a = (a, Some e)
      \<and> fuseRoutes_v2 h opts tree ref a = (a, Some e)
      \<and> fuseRoutes_p0 h opts tree ref a = (a, Some e)"
    by (simp add: fuseRoutes_v1_def fuseRoutes_v2_def fuseRoutes_p0_def)
  have a2: "scanProject_mjs opts tree = Inl e \<longrightarrow> fuseRoutes_mjs h opts tree ref a = (a, Some e)"
    by (simp add: fuseRoutes_mjs_def)
  have a3: "isl (scanProject opts tree)
       = (\<not> scanOk (DEFAULT_EXCLUDE_FOLDERS @ folders (filterFileAndFolder (excludeFilter opts)))
              tree)"
    by (simp add: scanProject_def Let_def scan_fails_iff(1))
  have a4: "isl (scanProject_mjs opts tree) = (\<not> listable tree)"
    by (simp add: scanProject_mjs_def Let_def scan_mjs_fails_iff)
  have a5: "\<not> listable tree \<longrightarrow>
        scanProject opts tree = Inl (ReaddirError (projectPath opts))
        \<and> scanProject_mjs opts tree = Inl (ReaddirError (projectPath opts))"
    by (simp add: scanProject_def scanProject_mjs_def Let_def scan_root_error)
  have a6: "snd (fuseRoutes_v2 h opts tree ref a) = Some e \<longrightarrow> scanProject opts tree = Inl e"
    by (cases "scanProject opts tree") (simp_all add: fuseRoutes_v2_def)
  have a7: "snd (fuseRoutes_p0 h opts tree ref a) = Some e \<longrightarrow> scanProject opts tree = Inl e"
    by (cases "scanProject opts tree") (simp_all add: fuseRoutes_p0_def)
  have a8: "snd (fuseRoutes_mjs h opts tree ref a) = Some e \<longrightarrow> scanProject_mjs opts tree = Inl e"
    by (cases "scanProject_mjs opts tree") (simp_all add: fuseRoutes_mjs_def)
  from a1 a2 a3 a4 a5 a6 a7 a8 show ?thesis by blast
qed

theorem scan_failure_aborts_before_mounting_witness:
  "scanProject demoOptions treeLocked = Inl (ReaddirError [''srv'', ''locked''])
   \<and> fuseRoutes_v1 demoHost demoOptions treeLocked emptyApp
       = (emptyApp, Some (ReaddirError [''srv'', ''locked'']))
   \<and> fuseRoutes_v2 demoHost demoOptions treeLocked 0 emptyApp
       = (emptyApp, Some (ReaddirError [''srv'', ''locked'']))
   \<and> fuseRoutes_p0 demoHost demoOptions treeLocked 0 emptyApp
       = (emptyApp, Some (ReaddirError [''srv'', ''locked'']))
   \<and> \<not> listable File
   \<and> scanProject_mjs demoOptions File = Inl (ReaddirError [''srv''])
   \<and> fuseRoutes_mjs demoHost demoOptions File 0 emptyApp
       = (emptyApp, Some (ReaddirError [''srv'']))"
proof -
  have s: "scanProject demoOptions treeLocked = Inl (ReaddirError [''srv'', ''locked''])"
    by code_simp
  have p: "projectPath demoOptions = [''srv'']"
    by (simp add: demoOptions_def)
  have l: "\<not> listable File"
    by simp
  show ?thesis
    using scan_failure_aborts_before_mounting
            [of demoOptions treeLocked "ReaddirError [''srv'', ''locked'']" demoHost emptyApp 0]
          scan_failure_aborts_before_mounting
            [of demoOptions File "ReaddirError [''srv'']" demoHost emptyApp 0]
          s l
    by (simp add: p)
qed

subsection \<open>C5: a value shaped like the whole application\<close>

text \<open>
  C5, as stated, fails in \<open>v1\<close>: the loop mounts every module that passes
  \<^verbatim>\<open>isExpressRouter\<close>, also one that is a function with own \<^verbatim>\<open>use\<close> and own \<^verbatim>\<open>handle\<close>.
\<close>

theorem application_like_mounted_v1:
  "applicationLike wholeApp
   \<and> isExpressRouter demoHost wholeApp
   \<and> scanProject demoOptions treeApp = Inr [[''srv'', ''app.js'']]
   \<and> require demoHost [''srv'', ''app.js''] = Inr wholeApp
   \<and> fuseRoutes_v1 demoHost demoOptions treeApp emptyApp
       = (\<lparr>stack = [mountLayer wholeApp]\<rparr>, None)"
  by code_simp

text \<open>
  C5, amended. In \<open>p0\<close> a candidate whose module is a function with own \<^verbatim>\<open>use\<close> and own
  \<^verbatim>\<open>handle\<close> leaves the application as it was: \<^verbatim>\<open>handleExpressRouter\<close> returns without
  mounting, whether or not the value passes \<^verbatim>\<open>isExpressRouter\<close>.
\<close>

theorem application_like_never_mounted_p0:
  assumes "applicationLike v" and "require h f = Inr v"
  shows "handleExpressRouter h a v = Inr a \<and> fuseFile_p0 h a f = a"
proof -
  have t: "typeof v \<noteq> ''object''"
    using assms(1) by (simp add: applicationLike_def)
  have "handleExpressRouter h a v = Inr a"
    using assms(1) t by (simp add: handleExpressRouter_def applicationLike_def Let_def)
  then show ?thesis
    using assms(2) by (simp add: fuseFile_p0_def)
qed

theorem application_like_never_mounted_p0_witness:
  "applicationLike wholeApp
   \<and> isExpressRouter demoHost wholeApp
   \<and> require demoHost [''srv'', ''app.js''] = Inr wholeApp
   \<and> handleExpressRouter demoHost emptyApp wholeApp = Inr emptyApp
   \<and> fuseFile_p0 demoHost emptyApp [''srv'', ''app.js''] = emptyApp"
proof -
  have a: "applicationLike wholeApp" by code_simp
  have r: "require demoHost [''srv'', ''app.js''] = Inr wholeApp" by code_simp
  have i: "isExpressRouter demoHost wholeApp" by code_simp
  show ?thesis
    using application_like_never_mounted_p0 [OF a r, of emptyApp] a r i by simp
qed

subsection \<open>C6: the members of a container\<close>

text \<open>
  C6, as stated, fails in \<open>p0\<close>: \<^verbatim>\<open>handleExpressRouter\<close> looks at a property value only
  when it is itself a function with an own \<^verbatim>\<open>stack\<close>, and never at its \<^verbatim>\<open>default\<close> slot. A
  member that is a router through its \<^verbatim>\<open>default\<close> slot is mounted by \<open>v2\<close> and left out by
  \<open>p0\<close>.
\<close>

theorem default_slot_ignored_p0:
  "require demoHost [''srv'', ''wrapped.js''] = Inr wrappedModule
   \<and> wrappedModule = JObject [(''a'', JObject [(''default'', routerA)] [])] []
   \<and> isExpressRouter demoHost (getProp (JObject [(''default'', routerA)] []) ''default'')
   \<and> \<not> useThrows demoHost routerA
   \<and> fuseFile_p0 demoHost emptyApp [''srv'', ''wrapped.js''] = emptyApp
   \<and> fuseFile_v2 demoHost emptyApp [''srv'', ''wrapped.js''] = \<lparr>stack = [mountLayer routerA]\<rparr>"
  by code_simp

text \<open>
  C6, amended. For a candidate whose module is an object, \<open>v2\<close> pushes, in key order,
  each property value that passes \<^verbatim>\<open>isExpressRouter\<close> or else its \<^verbatim>\<open>default\<close> slot when that
  passes (and after them the object itself, should it pass); \<open>p0\<close> pushes, in key order,
  each property value that is a function with an own \<^verbatim>\<open>stack\<close> and passes. A value that
  \<^verbatim>\<open>app.use\<close> rejects is left out, its error caught. A property value that does not pass,
  directly or through its \<^verbatim>\<open>default\<close> slot, contributes nothing in either variant, and
  the round always returns.
\<close>

theorem container_members_mounted:
  assumes "require h f = Inr (JObject own inh)"
  shows "stack (fuseFile_v2 h a f)
           = stack a @ map mountLayer (accepted h
               (concat (map (picks_v2 h) (map snd (own @ inh)))
                @ (if isExpressRouter h (JObject own inh) then [JObject own inh] else [])))
       \<and> stack (fuseFile_p0 h a f)
           = stack a @ map mountLayer (accepted h
               (concat (map (picks_p0 h) (map snd (own @ inh)))))
       \<and> (\<forall>e \<in> snd ` set own.
             (isExpressRouter h e \<and> \<not> useThrows h e
                \<longrightarrow> mountLayer e \<in> set (stack (fuseFile_v2 h a f)))
           \<and> (\<not> isExpressRouter h e \<and> isExpressRouter h (getProp e ''default'')
                \<and> \<not> useThrows h (getProp e ''default'')
                \<longrightarrow> mountLayer (getProp e ''default'') \<in> set (stack (fuseFile_v2 h a f)))
           \<and> (typeof e = ''function'' \<and> hasOwnProperty e ''stack'' \<and> isExpressRouter h e
                \<and> \<not> useThrows h e
                \<longrightarrow> mountLayer e \<in> set (stack (fuseFile_p0 h a f)))
           \<and> (\<not> isExpressRouter h e \<and> \<not> isExpressRouter h (getProp e ''default'')
                \<longrightarrow> picks_v2 h e = [] \<and> picks_p0 h e = []))"
proof -
  let ?es = "map snd (own @ inh)"
  have v2: "stack (fuseFile_v2 h a f)
           = stack a @ map mountLayer (accepted h
               (concat (map (picks_v2 h) ?es)
                @ (if isExpressRouter h (JObject own inh) then [JObject own inh] else [])))"
    using assms by (simp add: fuseFile_v2_stack routed_v2_def)
  have p0: "stack (fuseFile_p0 h a f)
           = stack a @ map mountLayer (accepted h (concat (map (picks_p0 h) ?es)))"
    using assms by (simp add: fuseFile_p0_stack routed_p0_def)
  have mem: "e \<in> set ?es" if "e \<in> snd ` set own" for e
    using that by auto
  show ?thesis
  proof (intro conjI ballI impI)
    show "stack (fuseFile_v2 h a f)
           = stack a @ map mountLayer (accepted h
               (concat (map (picks_v2 h) (map snd (own @ inh)))
                @ (if isExpressRouter h (JObject own inh) then [JObject own inh] else [])))"
      by (rule v2)
    show "stack (fuseFile_p0 h a f)
           = stack a @ map mountLayer (accepted h
               (concat (map (picks_p0 h) (map snd (own @ inh)))))"
      by (rule p0)
  next
    fix e assume e: "e \<in> snd ` set own"
      and c: "isExpressRouter h e \<and> \<not> useThrows h e"
    have "e \<in> set (picks_v2 h e)" using c by (simp add: picks_v2_def)
    then have "e \<in> set (concat (map (picks_v2 h) ?es))" using mem [OF e] by auto
    then show "mountLayer e \<in> set (stack (fuseFile_v2 h a f))"
      unfolding v2 using c by (intro mounted_member(1)) simp_all
  next
    fix e assume e: "e \<in> snd ` set own"
      and c: "\<not> isExpressRouter h e \<and> isExpressRouter h (getProp e ''default'')
                \<and> \<not> useThrows h (getProp e ''default'')"
    have "getProp e ''default'' \<in> set (picks_v2 h e)" using c by (simp add: picks_v2_def)
    then have "getProp e ''default'' \<in> set (concat (map (picks_v2 h) ?es))"
      using mem [OF e] by auto
    then show "mountLayer (getProp e ''default'') \<in> set (stack (fuseFile_v2 h a f))"
      unfolding v2 using c by (intro mounted_member(1)) simp_all
  next
    fix e assume e: "e \<in> snd ` set own"
      and c: "typeof e = ''function'' \<and> hasOwnProperty e ''stack'' \<and> isExpressRouter h e
                \<and> \<not> useThrows h e"
    have "e \<in> set (picks_p0 h e)" using c by (simp add: picks_p0_def)
    then have "e \<in> set (concat (map (picks_p0 h) ?es))" using mem [OF e] by auto
    then show "mountLayer e \<in> set (stack (fuseFile_p0 h a f))"
      unfolding p0 using c by (intro mounted_member(2)) simp_all
  next
    fix e assume c: "\<not> isExpressRouter h e \<and> \<not> isExpressRouter h (getProp e ''default'')"
    show "picks_v2 h e = []" using c by (simp add: picks_v2_def)
    show "picks_p0 h e = []" using c by (simp add: picks_p0_def)
  qed
qed

text \<open>The module \<^verbatim>\<open>{a: routerA, b: 42, c: routerC}\<close>.\<close>

theorem container_members_mounted_witness:
  "require demoHost [''srv'', ''box.js'']
     = Inr (JObject [(''a'', routerA), (''b'', JNum 42), (''c'', routerC)] [])
   \<and> stack (fuseFile_v2 demoHost emptyApp [''srv'', ''box.js''])
       = [mountLayer routerA, mountLayer routerC]
   \<and> stack (fuseFile_p0 demoHost emptyApp [''srv'', ''box.js''])
       = [mountLayer routerA, mountLayer routerC]
   \<and> picks_v2 demoHost (JNum 42) = [] \<and> picks_p0 demoHost (JNum 42) = []"
proof -
  have r: "require demoHost [''srv'', ''box.js'']
     = Inr (JObject [(''a'', routerA), (''b'', JNum 42), (''c'', routerC)] [])"
    by code_simp
  have v: "accepted demoHost
               (concat (map (picks_v2 demoHost)
                  (map snd ([(''a'', routerA), (''b'', JNum 42), (''c'', routerC)] @ [])))
                @ (if isExpressRouter demoHost
                        (JObject [(''a'', routerA), (''b'', JNum 42), (''c'', routerC)] [])
                   then [JObject [(''a'', routerA), (''b'', JNum 42), (''c'', routerC)] []]
                   else []))
            = [routerA, routerC]"
    by code_simp
  have p: "accepted demoHost
               (concat (map (picks_p0 demoHost)
                  (map snd ([(''a'', routerA), (''b'', JNum 42), (''c'', routerC)] @ []))))
            = [routerA, routerC]"
    by code_simp
  have n: "picks_v2 demoHost (JNum 42) = [] \<and> picks_p0 demoHost (JNum 42) = []"
    by code_simp
  show ?thesis
    using container_members_mounted [OF r, of emptyApp] r n
    unfolding v p
    by (simp add: emptyApp_stack)
qed

subsection \<open>C9: the help route reads the live application\<close>

text \<open>
  C9. Let \<^verbatim>\<open>helpRoute\<close> be set. A run of \<open>v2\<close> on a tree whose scan meets no failure, and a
  run of \<open>mjs\<close> on a tree whose starting directory can be listed, returns without an error
  and leaves the help layer last on the application, its handler a closure over the
  application's address. When the host program then mounts one more router that \<^verbatim>\<open>app.use\<close>
  accepts, a request to the handler the run registered gets \<^verbatim>\<open>extractExpressRoutes\<close> of the
  application as it is then, whose stack is the stack at the end of discovery followed by
  the new router's layer.
\<close>

theorem help_route_reads_live_application:
  assumes "helpRoute opts" and "\<not> useThrows h r"
    and "(scanOk (DEFAULT_EXCLUDE_FOLDERS @ folders (filterFileAndFolder (excludeFilter opts)))
            tree
          \<and> run = callFuseRoutes_v2 h opts tree st ref)
         \<or> (listable tree \<and> run = callFuseRoutes_mjs h opts tree st ref)"
  shows "snd run = None
       \<and> snd (callUse h (fst run) ref r) = None
       \<and> last (stack (fst run ref)) = Layer (Some ''/help'') (HelpHandler ref)
       \<and> stack (fst (callUse h (fst run) ref r) ref)
           = stack (fst run ref) @ [Layer None (Router r)]
       \<and> invokeHandler extractExpressRoutes (fst (callUse h (fst run) ref r))
            (layerHandler (last (stack (fst run ref))))
           = Some (extractExpressRoutes (fst (callUse h (fst run) ref r) ref))"
  using assms(3)
proof
  assume c: "scanOk (DEFAULT_EXCLUDE_FOLDERS @ folders (filterFileAndFolder (excludeFilter opts)))
            tree
          \<and> run = callFuseRoutes_v2 h opts tree st ref"
  then have r: "run = callFuseRoutes_v2 h opts tree st ref" by simp
  from c scanProject_succeeds [of opts tree] obtain fs where "scanProject opts tree = Inr fs"
    by blast
  then have "run = (st(ref := addHelpRoute opts ref (mountAll_v2 h (st ref) fs)), None)"
    by (simp add: r callFuseRoutes_v2_def fuseRoutes_v2_def)
  from help_after_run [OF assms(1) assms(2) this] show ?thesis .
next
  assume c: "listable tree \<and> run = callFuseRoutes_mjs h opts tree st ref"
  then have r: "run = callFuseRoutes_mjs h opts tree st ref" by simp
  from c scanProject_mjs_succeeds [of tree opts]
  obtain fs where "scanProject_mjs opts tree = Inr fs"
    by blast
  then have "run = (st(ref := addHelpRoute opts ref (mountAll_mjs h (st ref) fs)), None)"
    by (simp add: r callFuseRoutes_mjs_def fuseRoutes_mjs_def)
  from help_after_run [OF assms(1) assms(2) this] show ?thesis .
qed

text \<open>Both variants on the three-file tree; the route extractor is taken to be the stack
  itself, so that the later router shows in the response.\<close>

theorem help_route_reads_live_application_witness:
  "helpRoute demoOptions
   \<and> \<not> useThrows demoHost routerC
   \<and> scanOk (DEFAULT_EXCLUDE_FOLDERS @ folders (filterFileAndFolder (excludeFilter demoOptions)))
        treeABC
   \<and> listable treeABC
   \<and> snd (callFuseRoutes_v2 demoHost demoOptions treeABC (\<lambda>_. emptyApp) 0) = None
   \<and> invokeHandler stack
        (fst (callUse demoHost
                (fst (callFuseRoutes_v2 demoHost demoOptions treeABC (\<lambda>_. emptyApp) 0))
                0 routerC))
        (layerHandler (last (stack
           (fst (callFuseRoutes_v2 demoHost demoOptions treeABC (\<lambda>_. emptyApp) 0) 0))))
       = Some [mountLayer routerA, mountLayer routerC, Layer (Some ''/help'') (HelpHandler 0),
               mountLayer routerC]
   \<and> snd (callFuseRoutes_mjs demoHost demoOptions treeABC (\<lambda>_. emptyApp) 0) = None
   \<and> invokeHandler stack
        (fst (callUse demoHost
                (fst (callFuseRoutes_mjs demoHost demoOptions treeABC (\<lambda>_. emptyApp) 0))
                0 routerC))
        (layerHandler (last (stack
           (fst (callFuseRoutes_mjs demoHost demoOptions treeABC (\<lambda>_. emptyApp) 0) 0))))
       = Some [mountLayer routerA, mountLayer routerC, Layer (Some ''/help'') (HelpHandler 0),
               mountLayer routerC]"
proof -
  have hr: "helpRoute demoOptions"
    by (simp add: demoOptions_def)
  have t: "\<not> useThrows demoHost routerC"
    by code_simp
  have ok: "scanOk (DEFAULT_EXCLUDE_FOLDERS
                     @ folders (filterFileAndFolder (excludeFilter demoOptions))) treeABC"
    by code_simp
  have f2: "fuseRoutes_v2 demoHost demoOptions treeABC 0 emptyApp
             = (\<lparr>stack = [mountLayer routerA, mountLayer routerC,
                            Layer (Some ''/help'') (HelpHandler 0)]\<rparr>, None)"
    by code_simp
  have fm: "fuseRoutes_mjs demoHost demoOptions treeABC 0 emptyApp
             = (\<lparr>stack = [mountLayer routerA, mountLayer routerC,
                            Layer (Some ''/help'') (HelpHandler 0)]\<rparr>, None)"
    by code_simp
  have a2: "fst (callFuseRoutes_v2 demoHost demoOptions treeABC (\<lambda>_. emptyApp) 0) 0
              = \<lparr>stack = [mountLayer routerA, mountLayer routerC,
                            Layer (Some ''/help'') (HelpHandler 0)]\<rparr>"
    by (simp add: callFuseRoutes_v2_def f2)
  have am: "fst (callFuseRoutes_mjs demoHost demoOptions treeABC (\<lambda>_. emptyApp) 0) 0
              = \<lparr>stack = [mountLayer routerA, mountLayer routerC,
                            Layer (Some ''/help'') (HelpHandler 0)]\<rparr>"
    by (simp add: callFuseRoutes_mjs_def fm)
  have li: "listable treeABC"
    by (simp add: treeABC_def)
  note v2 = help_route_reads_live_application
      [OF hr t disjI1 [OF conjI [OF ok refl]], of "\<lambda>_. emptyApp" 0 stack]
  note mjs = help_route_reads_live_application
      [OF hr t disjI2 [OF conjI [OF li refl]], of "\<lambda>_. emptyApp" 0 stack]
  show ?thesis
    using v2 mjs hr t ok li
    by (simp add: a2 am mountLayer_def)
qed

subsection \<open>C10: routers are mounted without a path\<close>

text \<open>
  C10. Whatever the inputs, the layers a run pushes on the application are one-argument
  mounts \<open>Layer None (Router v)\<close>, followed in \<open>v2\<close>, \<open>mjs\<close> and \<open>p0\<close> by the help layer at
  \<^verbatim>\<open>/help\<close> when it is asked for and the scan succeeds. No router is pushed with a mount
  path, and the help layer is the only layer with one.
\<close>

theorem routers_mounted_without_path:
  "(\<exists>vs. stack (fst (fuseRoutes_v2 h opts tree ref a))
            = stack a @ map (\<lambda>v. Layer None (Router v)) vs
              @ (if helpRoute opts \<and> \<not> isl (scanProject opts tree)
                 then [Layer (Some ''/help'') (HelpHandler ref)] else []))
   \<and> (\<exists>vs. stack (fst (fuseRoutes_mjs h opts tree ref a))
            = stack a @ map (\<lambda>v. Layer None (Router v)) vs
              @ (if helpRoute opts \<and> \<not> isl (scanProject_mjs opts tree)
                 then [Layer (Some ''/help'') (HelpHandler ref)] else []))
   \<and> (\<exists>vs. stack (fst (fuseRoutes_p0 h opts tree ref a))
            = stack a @ map (\<lambda>v. Layer None (Router v)) vs
              @ (if helpRoute opts \<and> \<not> isl (scanProject opts tree)
                 then [Layer (Some ''/help'') (HelpHandler ref)] else []))
   \<and> (\<exists>vs. stack (fst (fuseRoutes_v1 h opts tree a))
            = stack a @ map (\<lambda>v. Layer None (Router v)) vs)"
proof -
  have ml: "mountLayer = (\<lambda>v. Layer None (Router v))"
    by (rule ext) (simp add: mountLayer_def)
  have nil: "stack a = stack a @ map mountLayer [] @ []" by simp
  have v2: "\<exists>vs. stack (fst (fuseRoutes_v2 h opts tree ref a))
            = stack a @ map mountLayer vs
              @ (if helpRoute opts \<and> \<not> isl (scanProject opts tree)
                 then [Layer (Some ''/help'') (HelpHandler ref)] else [])"
  proof (cases "scanProject opts tree")
    case (Inl e)
    then have "stack (fst (fuseRoutes_v2 h opts tree ref a))
            = stack a @ map mountLayer []
              @ (if helpRoute opts \<and> \<not> isl (scanProject opts tree)
                 then [Layer (Some ''/help'') (HelpHandler ref)] else [])"
      by (simp add: fuseRoutes_v2_def)
    then show ?thesis by blast
  next
    case (Inr fs)
    from fuseRoutes_v2_stack [OF Inr, of h ref a] show ?thesis
      unfolding helpLayer_stack Inr by auto
  qed
  have mjs: "\<exists>vs. stack (fst (fuseRoutes_mjs h opts tree ref a))
            = stack a @ map mountLayer vs
              @ (if helpRoute opts \<and> \<not> isl (scanProject_mjs opts tree)
                 then [Layer (Some ''/help'') (HelpHandler ref)] else [])"
  proof (cases "scanProject_mjs opts tree")
    case (Inl e)
    then have "stack (fst (fuseRoutes_mjs h opts tree ref a))
            = stack a @ map mountLayer []
              @ (if helpRoute opts \<and> \<not> isl (scanProject_mjs opts tree)
                 then [Layer (Some ''/help'') (HelpHandler ref)] else [])"
      by (simp add: fuseRoutes_mjs_def)
    then show ?thesis by blast
  next
    case (Inr fs)
    from fuseRoutes_mjs_stack [OF Inr, of h ref a] show ?thesis
      unfolding helpLayer_stack Inr by auto
  qed
  have p0: "\<exists>vs. stack (fst (fuseRoutes_p0 h opts tree ref a))
            = stack a @ map mountLayer vs
              @ (if helpRoute opts \<and> \<not> isl (scanProject opts tree)
                 then [Layer (Some ''/help'') (HelpHandler ref)] else [])"
  proof (cases "scanProject opts tree")
    case (Inl e)
    then have "stack (fst (fuseRoutes_p0 h opts tree ref a))
            = stack a @ map mountLayer []
              @ (if helpRoute opts \<and> \<not> isl (scanProject opts tree)
                 then [Layer (Some ''/help'') (HelpHandler ref)] else [])"
      by (simp add: fuseRoutes_p0_def)
    then show ?thesis by blast
  next
    case (Inr fs)
    from fuseRoutes_p0_stack [OF Inr, of h ref a] show ?thesis
      unfolding helpLayer_stack Inr by auto
  qed
  have v1: "\<exists>vs. stack (fst (fuseRoutes_v1 h opts tree a)) = stack a @ map mountLayer vs"
  proof (cases "scanProject opts tree")
    case (Inl e)
    then have "stack (fst (fuseRoutes_v1 h opts tree a)) = stack a @ map mountLayer []"
      by (simp add: fuseRoutes_v1_def)
    then show ?thesis by blast
  next
    case (Inr fs)
    then show ?thesis using mountAll_v1_stack [of h a fs] by (simp add: fuseRoutes_v1_def)
  qed
  from v2 mjs p0 v1 show ?thesis unfolding ml by blast
qed

theorem routers_mounted_without_path_witness:
  "stack (fst (fuseRoutes_p0 demoHost demoOptions treeBox 0 emptyApp))
     = [Layer None (Router routerC), Layer None (Router routerA), Layer None (Router routerC),
        Layer None (Router routerA), Layer (Some ''/help'') (HelpHandler 0)]
   \<and> (\<exists>vs. stack (fst (fuseRoutes_p0 demoHost demoOptions treeBox 0 emptyApp))
            = map (\<lambda>v. Layer None (Router v)) vs @ [Layer (Some ''/help'') (HelpHandler 0)])"
proof -
  have e: "stack (fst (fuseRoutes_p0 demoHost demoOptions treeBox 0 emptyApp))
     = [Layer None (Router routerC), Layer None (Router routerA), Layer None (Router routerC),
        Layer None (Router routerA), Layer (Some ''/help'') (HelpHandler 0)]"
    by code_simp
  have s: "\<not> isl (scanProject demoOptions treeBox)"
    by code_simp
  have h: "helpRoute demoOptions"
    by (simp add: demoOptions_def)
  show ?thesis
    using routers_mounted_without_path [of demoHost demoOptions treeBox 0 emptyApp] e s h
    by (simp add: emptyApp_stack)
qed

end
